theory Spec2Isabelle
  imports Complex_Main "HOL-Library.AList"
begin

section \<open>Values read from the backing store\<close>

text \<open>
  \<^verbatim>\<open>json.load\<close> returns \<^verbatim>\<open>None\<close>, a bool, an int, a float, a str, a list or a dict
  with string keys. A float is kept as the rational it denotes (the non-finite constants
  the decoder also accepts are not represented). A dict is an association list with
  distinct keys, in insertion order.
\<close>

datatype json =
    JNull
  | JBool bool
  | JInt int
  | JFloat rat
  | JStr string
  | JList "json list"
  | JDict "(string \<times> json) list"

text \<open>
  The exceptions the supervisor handles. Every member is a subclass of Python's
  \<^verbatim>\<open>Exception\<close>, so \<^verbatim>\<open>except Exception\<close> catches each of them.
\<close>

datatype exn =
    JSONDecodeError string
  | FileNotFoundError
  | TimeoutExpired
  | TypeError
  | AttributeError
  | IndexError
  | ValueError string
  | OtherException string

text \<open>
  A printed line is the f-string of the source: literal text and the values
  interpolated into it, in order.
\<close>

datatype piece =
    Lit string
  | Idx nat
  | Val json
  | Err exn
  | Code int
  | Text string
  | Args "string list"

text \<open>
  What a supervisor thread does to the outside world, in program order: lines printed,
  the registry mutex taken and released, the store read, and the process operations.
  \<open>StartBot i\<close> is the call \<^verbatim>\<open>_start_bot_process(i)\<close>, \<open>Popen i\<close> the process creation
  inside it; \<open>Terminate\<close>, \<open>WaitFor\<close> (with its timeout), \<open>Kill\<close>, \<open>Poll\<close> and
  \<open>Communicate\<close> are the \<^verbatim>\<open>subprocess.Popen\<close> methods called on the handle registered
  for a slot; \<open>Sleep\<close> is \<^verbatim>\<open>time.sleep\<close>.
\<close>

datatype event =
    Print "piece list"
  | Acquire
  | Release
  | StoreRead
  | StartBot nat
  | Popen nat
  | ThreadStart nat
  | Terminate nat
  | WaitFor nat nat
  | Kill nat
  | Poll nat
  | Communicate nat
  | Sleep rat

section \<open>The config store: \<^verbatim>\<open>BotMonitor._load_data\<close>\<close>

text \<open>
  The state of the data file at the moment of a read: absent
  (\<^verbatim>\<open>os.path.exists\<close> is false), present but \<^verbatim>\<open>open\<close> or \<^verbatim>\<open>json.load\<close> raises, or
  present with the value \<^verbatim>\<open>json.load\<close> returns.
\<close>

datatype store =
    Missing
  | Unreadable exn
  | Content json

text \<open>The \<^verbatim>\<open>try\<close> block of \<^verbatim>\<open>_load_data\<close> once the file is known to exist
  (lines 23-24): the exception raised, or the parsed value.\<close>

fun read_store :: "store \<Rightarrow> exn + json" where
  "read_store Missing = Inl FileNotFoundError"
| "read_store (Unreadable e) = Inl e"
| "read_store (Content j) = Inr j"

text \<open>\<^verbatim>\<open>_load_data\<close> (lines 17-37): the list returned and what was printed. The two
  \<^verbatim>\<open>except\<close> clauses are tried in the source's order. \<open>StoreRead\<close> is the access to
  the data file: the test that it exists and, when it does, the read.\<close>

definition load_data :: "string \<Rightarrow> store \<Rightarrow> json list \<times> event list" where
  "load_data data_file s =
     (if s = Missing then
        ([], [StoreRead, Print [Lit ''Error: '', Lit data_file, Lit '' not found'']])
      else
        (case read_store s of
           Inr (JList xs) \<Rightarrow> (xs, [StoreRead])
         | Inr _ \<Rightarrow>
             ([], [StoreRead,
                   Print [Lit ''Error: '', Lit data_file,
                          Lit '' should contain a list of bot configurations'']])
         | Inl (JSONDecodeError m) \<Rightarrow>
             ([], [StoreRead,
                   Print [Lit ''Error: Invalid JSON in '', Lit data_file, Lit '': '',
                          Err (JSONDecodeError m)]])
         | Inl e \<Rightarrow>
             ([], [StoreRead, Print [Lit ''Error loading data: '', Err e]])))"

text \<open>A worker record is a JSON object.\<close>

fun is_record :: "json \<Rightarrow> bool" where
  "is_record (JDict kv) = True"
| "is_record _ = False"

fun is_print :: "event \<Rightarrow> bool" where
  "is_print (Print l) = True"
| "is_print _ = False"

section \<open>Python's comparison and membership on decoded values\<close>

text \<open>The numeric reading of a value: \<^verbatim>\<open>True == 1\<close> and \<^verbatim>\<open>5 == 5.0\<close> hold in Python.\<close>

fun num_of :: "json \<Rightarrow> rat option" where
  "num_of (JBool b) = Some (if b then 1 else 0)"
| "num_of (JInt n) = Some (of_int n)"
| "num_of (JFloat r) = Some r"
| "num_of _ = None"

text \<open>\<^verbatim>\<open>a == b\<close>: lists element by element, dicts key by key whatever the order.\<close>

fun py_eq :: "json \<Rightarrow> json \<Rightarrow> bool" where
  "py_eq (JList xs) (JList ys) = list_all2 py_eq xs ys"
| "py_eq (JDict a) (JDict b) =
     (length a = length b \<and>
      list_all (\<lambda>(k, v). case map_of b k of None \<Rightarrow> False | Some w \<Rightarrow> py_eq v w) a)"
| "py_eq (JStr s) (JStr t) = (s = t)"
| "py_eq JNull JNull = True"
| "py_eq x y = (case (num_of x, num_of y) of (Some p, Some q) \<Rightarrow> p = q | _ \<Rightarrow> False)"

text \<open>\<^verbatim>\<open>s.startswith(p)\<close> and \<^verbatim>\<open>p in s\<close> on sequences of characters.\<close>

fun startswith :: "'a list \<Rightarrow> 'a list \<Rightarrow> bool" where
  "startswith s [] = True"
| "startswith [] (p # ps) = False"
| "startswith (c # cs) (p # ps) = (c = p \<and> startswith cs ps)"

fun has_sub :: "'a list \<Rightarrow> 'a list \<Rightarrow> bool" where
  "has_sub p [] = (p = [])"
| "has_sub p (c # cs) = (startswith (c # cs) p \<or> has_sub p cs)"

text \<open>\<^verbatim>\<open>field in config\<close>: a key of a dict, an element of a list, a substring of a str;
  a \<^verbatim>\<open>TypeError\<close> on the values that are not containers.\<close>

fun contains :: "json \<Rightarrow> string \<Rightarrow> exn + bool" where
  "contains (JDict kv) k = Inr (list_ex (\<lambda>(k', v). k' = k) kv)"
| "contains (JList xs) k = Inr (list_ex (\<lambda>x. py_eq x (JStr k)) xs)"
| "contains (JStr s) k = Inr (has_sub k s)"
| "contains _ k = Inl TypeError"

text \<open>\<^verbatim>\<open>config.get(k, d)\<close>: only a dict has the method.\<close>

fun get_or :: "json \<Rightarrow> string \<Rightarrow> json \<Rightarrow> exn + json" where
  "get_or (JDict kv) k d = Inr (case map_of kv k of None \<Rightarrow> d | Some v \<Rightarrow> v)"
| "get_or _ k d = Inl AttributeError"

text \<open>\<^verbatim>\<open>isinstance(v, int)\<close> (a bool is an int in Python) and \<^verbatim>\<open>v < 0\<close> on such a value.\<close>

fun is_int :: "json \<Rightarrow> bool" where
  "is_int (JInt n) = True"
| "is_int (JBool b) = True"
| "is_int _ = False"

fun is_negative :: "json \<Rightarrow> bool" where
  "is_negative (JInt n) = (n < 0)"
| "is_negative _ = False"

section \<open>Validation and spawn: \<^verbatim>\<open>_validate_bot_config\<close>, \<^verbatim>\<open>_start_bot_process\<close>\<close>

text \<open>The loop over the required fields (lines 42-45): the first field that is missing,
  or the exception the membership test raises.\<close>

fun missing_field :: "json \<Rightarrow> string list \<Rightarrow> exn + string option" where
  "missing_field config [] = Inr None"
| "missing_field config (f # fs) =
     (case contains config f of
        Inl e \<Rightarrow> Inl e
      | Inr True \<Rightarrow> missing_field config fs
      | Inr False \<Rightarrow> Inr (Some f))"

text \<open>\<^verbatim>\<open>_validate_bot_config\<close> (lines 39-51). The assignment
  \<^verbatim>\<open>config["msg_chance"] = 5\<close> changes the list \<^verbatim>\<open>_start_bot_process\<close> has just read
  and drops on return, so only the printed warning is kept.\<close>

definition validate_bot_config :: "json \<Rightarrow> nat \<Rightarrow> (exn + bool) \<times> event list" where
  "validate_bot_config config index =
     (case missing_field config [''bot_token'', ''model'', ''personality''] of
        Inl e \<Rightarrow> (Inl e, [])
      | Inr (Some f) \<Rightarrow>
          (Inr False,
           [Print [Lit ''Error: Bot '', Idx index, Lit '' missing required field '',
                   Lit [CHR 0x27], Lit f, Lit [CHR 0x27]]])
      | Inr None \<Rightarrow>
          (case get_or config ''msg_chance'' (JInt 5) of
             Inl e \<Rightarrow> (Inl e, [])
           | Inr v \<Rightarrow>
               if \<not> is_int v \<or> is_negative v then
                 (Inr True,
                  [Print [Lit ''Warning: Bot '', Idx index,
                          Lit '' has invalid msg_chance, using default (5)'']])
               else (Inr True, [])))"

text \<open>
  What the environment decides during one pass of the supervisor: the store as the
  pass first reads it, the store as \<^verbatim>\<open>_start_bot_process(i)\<close> reads it again, the
  outcome of \<^verbatim>\<open>subprocess.Popen\<close> for slot \<open>i\<close> (an exception or the new process), and
  for a process what \<^verbatim>\<open>terminate\<close>, \<^verbatim>\<open>wait(timeout=5)\<close> and \<^verbatim>\<open>kill\<close> raise, whether
  \<^verbatim>\<open>poll()\<close> finds it exited, and what \<^verbatim>\<open>communicate()\<close> gives once it has exited
  (an exception, or the return code and whether stderr is non-empty).
\<close>

record world =
  store0 :: store
  reread :: "nat \<Rightarrow> store"
  popen :: "nat \<Rightarrow> exn + nat"
  terminate_exn :: "nat \<Rightarrow> exn option"
  wait_exn :: "nat \<Rightarrow> exn option"
  kill_exn :: "nat \<Rightarrow> exn option"
  exited :: "nat \<Rightarrow> bool"
  communicate :: "nat \<Rightarrow> exn + int \<times> string"

text \<open>The two handlers of \<^verbatim>\<open>_start_bot_process\<close> (lines 74-79), in the source's order.\<close>

fun start_failed :: "nat \<Rightarrow> exn \<Rightarrow> event list" where
  "start_failed index FileNotFoundError = [Print [Lit ''Error: discord_bot.py not found'']]"
| "start_failed index e = [Print [Lit ''Error starting bot '', Idx index, Lit '': '', Err e]]"

text \<open>\<^verbatim>\<open>_start_bot_process\<close> (lines 53-79): the new process, or \<^verbatim>\<open>None\<close>.\<close>

definition start_bot_process :: "string \<Rightarrow> world \<Rightarrow> nat \<Rightarrow> nat option \<times> event list" where
  "start_bot_process file w index =
     (let (current_data, ev) = load_data file (reread w index);
          pre = [StartBot index, Print [Lit ''Starting bot '', Idx index, Lit ''...'']] @ ev
      in if index \<ge> length current_data then
           (None, pre @ [Print [Lit ''Error: Bot index '', Idx index, Lit '' out of range'']])
         else
           (case validate_bot_config (current_data ! index) index of
              (Inl e, ev2) \<Rightarrow> (None, pre @ ev2 @ start_failed index e)
            | (Inr False, ev2) \<Rightarrow> (None, pre @ ev2)
            | (Inr True, ev2) \<Rightarrow>
                (case popen w index of
                   Inl e \<Rightarrow> (None, pre @ ev2 @ [Popen index] @ start_failed index e)
                 | Inr p \<Rightarrow> (Some p, pre @ ev2 @ [Popen index]))))"

section \<open>The supervisor's state and reconciliation: \<^verbatim>\<open>_start_new_bots\<close>\<close>

text \<open>
  The fields of \<^verbatim>\<open>BotMonitor\<close>. \<open>running_bots\<close> is the dict from slot index to process,
  in insertion order; \<^verbatim>\<open>i in d\<close> is \<open>map_of d i \<noteq> None\<close>, \<^verbatim>\<open>d[i] = p\<close> is
  \<open>AList.update i p d\<close>, \<^verbatim>\<open>del d[i]\<close> is \<open>AList.delete i d\<close>, \<^verbatim>\<open>len(d)\<close> is \<open>length d\<close>.
  The mutex itself is not a field: taking and releasing it are events.
\<close>

record monitor =
  data_file :: string
  data :: "json list"
  running_bots :: "(nat \<times> nat) list"
  monitoring :: bool

definition live :: "(nat \<times> nat) list \<Rightarrow> nat \<Rightarrow> bool" where
  "live rb i = (map_of rb i \<noteq> None)"

text \<open>
  The body of the loop at lines 115-135 for slot \<open>i\<close>. The test of line 122 stands
  under the test of line 116 as in the source, which has just found the slot absent
  from the registry, so its branch is never taken. \<^verbatim>\<open>terminate()\<close> at line 123 is an
  event only: what it could raise is not modelled there.
\<close>

definition slot_step ::
  "string \<Rightarrow> world \<Rightarrow> json list \<Rightarrow> json list \<Rightarrow> nat \<Rightarrow> (nat \<times> nat) list
     \<Rightarrow> (nat \<times> nat) list \<times> event list" where
  "slot_step file w old_data new_data i rb =
     (if \<not> live rb i then
        (let (rb1, ev1) =
               (if i < length old_data \<and> \<not> py_eq (old_data ! i) (new_data ! i) then
                  (if live rb i then
                     (AList.delete i rb,
                      [Print [Lit ''Bot '', Idx i, Lit '' configuration changed, restarting...''],
                       Terminate i])
                   else
                     (rb, [Print [Lit ''Bot '', Idx i,
                                  Lit '' configuration changed, restarting...'']]))
                else (rb, []));
             (process, ev2) = start_bot_process file w i
         in case process of
              Some p \<Rightarrow> (AList.update i p rb1, ev1 @ ev2 @ [ThreadStart i])
            | None \<Rightarrow> (rb1, ev1 @ ev2))
      else (rb, []))"

text \<open>\<^verbatim>\<open>for i in range(len(new_data))\<close>, over the indices still to visit.\<close>

fun start_loop ::
  "string \<Rightarrow> world \<Rightarrow> json list \<Rightarrow> json list \<Rightarrow> nat list \<Rightarrow> (nat \<times> nat) list
     \<Rightarrow> (nat \<times> nat) list \<times> event list" where
  "start_loop file w old_data new_data [] rb = (rb, [])"
| "start_loop file w old_data new_data (i # is) rb =
     (let (rb1, ev1) = slot_step file w old_data new_data i rb;
          (rb2, ev2) = start_loop file w old_data new_data is rb1
      in (rb2, ev1 @ ev2))"

text \<open>\<^verbatim>\<open>_start_new_bots\<close> (lines 103-137).\<close>

definition start_new_bots :: "world \<Rightarrow> monitor \<Rightarrow> monitor \<times> event list" where
  "start_new_bots w st =
     (let (new_data, ev0) = load_data (data_file st) (store0 w) in
      if new_data = [] then (st, ev0)
      else
        (let current_count = length (running_bots st);
             new_count = length new_data;
             (rb, ev) =
               (if new_count > current_count then
                  start_loop (data_file st) w (data st) new_data [0..<length new_data]
                    (running_bots st)
                else (running_bots st, []))
         in (st\<lparr>running_bots := rb, data := new_data\<rparr>, ev0 @ [Acquire] @ ev @ [Release])))"

text \<open>
  The actions of the specification, read off the events: a Start is a call of
  \<^verbatim>\<open>_start_bot_process\<close>, a Stop is a \<^verbatim>\<open>terminate()\<close> or a \<^verbatim>\<open>kill()\<close> on the slot's
  process.
\<close>

datatype action = Start nat | Stop nat

fun action_of :: "event \<Rightarrow> action list" where
  "action_of (StartBot i) = [Start i]"
| "action_of (Terminate i) = [Stop i]"
| "action_of (Kill i) = [Stop i]"
| "action_of _ = []"

definition actions :: "event list \<Rightarrow> action list" where
  "actions evs = concat (map action_of evs)"

section \<open>Reaping and shutdown\<close>

text \<open>\<^verbatim>\<open>_monitor_bot_process\<close> (lines 81-101), the body of the thread started for a
  process: it blocks in \<^verbatim>\<open>communicate()\<close>, then removes the slot's entry under the
  mutex. Its effect on the shared registry is one atomic step.\<close>

definition unregister :: "nat \<Rightarrow> (nat \<times> nat) list \<Rightarrow> (nat \<times> nat) list" where
  "unregister index rb = (if live rb index then AList.delete index rb else rb)"

definition monitor_bot_process :: "world \<Rightarrow> nat \<Rightarrow> nat \<Rightarrow> monitor \<Rightarrow> monitor \<times> event list" where
  "monitor_bot_process w index process st =
     (case communicate w process of
        Inl e \<Rightarrow>
          (st\<lparr>running_bots := unregister index (running_bots st)\<rparr>,
           [Communicate index,
            Print [Lit ''Error monitoring bot '', Idx index, Lit '': '', Err e],
            Acquire, Release])
      | Inr (returncode, stderr) \<Rightarrow>
          (st\<lparr>running_bots := unregister index (running_bots st)\<rparr>,
           [Communicate index, Acquire, Release] @
           (if returncode \<noteq> 0 then
              Print [Lit ''Bot '', Idx index, Lit '' failed with return code '', Code returncode]
              # (if stderr \<noteq> [] then
                   [Print [Lit ''Bot '', Idx index, Lit '' stderr: '', Text stderr]]
                 else [])
            else [Print [Lit ''Bot '', Idx index, Lit '' finished successfully'']])))"

text \<open>\<^verbatim>\<open>_cleanup_finished_bots\<close> (lines 139-148).\<close>

definition cleanup_finished_bots :: "world \<Rightarrow> monitor \<Rightarrow> monitor \<times> event list" where
  "cleanup_finished_bots w st =
     (let finished_bots = map fst (filter (\<lambda>(index, process). exited w process) (running_bots st))
      in (st\<lparr>running_bots := fold AList.delete finished_bots (running_bots st)\<rparr>,
          [Acquire] @ map (\<lambda>(index, process). Poll index) (running_bots st)
          @ map (\<lambda>index. Print [Lit ''Cleaning up finished bot '', Idx index]) finished_bots
          @ [Release]))"

text \<open>The body of the loop of \<^verbatim>\<open>_shutdown_all_bots\<close> (lines 187-197) for one entry of
  the registry. \<^verbatim>\<open>TimeoutExpired\<close> from \<^verbatim>\<open>wait\<close> is handled by the inner
  \<^verbatim>\<open>except\<close>; anything else raised by \<^verbatim>\<open>terminate\<close>, \<^verbatim>\<open>wait\<close> or \<^verbatim>\<open>kill\<close> by the
  outer one.\<close>

definition terminate_failed :: "nat \<Rightarrow> exn \<Rightarrow> event list" where
  "terminate_failed index e = [Print [Lit ''Error terminating bot '', Idx index, Lit '': '', Err e]]"

definition shutdown_one :: "world \<Rightarrow> nat \<times> nat \<Rightarrow> event list" where
  "shutdown_one w entry =
     (case entry of (index, process) \<Rightarrow>
        [Print [Lit ''Terminating bot '', Idx index, Lit ''...''], Terminate index] @
        (case terminate_exn w process of
           Some e \<Rightarrow> terminate_failed index e
         | None \<Rightarrow>
             WaitFor index 5 #
             (case wait_exn w process of
                None \<Rightarrow> []
              | Some TimeoutExpired \<Rightarrow>
                  [Print [Lit ''Force killing bot '', Idx index, Lit ''...''], Kill index] @
                  (case kill_exn w process of
                     None \<Rightarrow> []
                   | Some e \<Rightarrow> terminate_failed index e)
              | Some e \<Rightarrow> terminate_failed index e)))"

text \<open>\<^verbatim>\<open>_shutdown_all_bots\<close> (lines 183-200).\<close>

definition shutdown_all_bots :: "world \<Rightarrow> monitor \<Rightarrow> monitor \<times> event list" where
  "shutdown_all_bots w st =
     (st\<lparr>running_bots := []\<rparr>,
      [Acquire,
       Print [Lit ''Shutting down '', Idx (length (running_bots st)), Lit '' running bots...'']]
      @ concat (map (shutdown_one w) (running_bots st))
      @ [Release, Print [Lit ''All bots have been shut down.'']])"

text \<open>The process operations among the events.\<close>

fun is_process_op :: "event \<Rightarrow> bool" where
  "is_process_op (Terminate i) = True"
| "is_process_op (WaitFor i t) = True"
| "is_process_op (Kill i) = True"
| "is_process_op _ = False"

section \<open>The mutex\<close>

text \<open>The events a thread performs while it holds the mutex: those between an
  \<open>Acquire\<close> and the next \<open>Release\<close>. The flag says whether the mutex is held at the
  start of the list.\<close>

fun under_lock :: "bool \<Rightarrow> event list \<Rightarrow> event list" where
  "under_lock held [] = []"
| "under_lock held (Acquire # es) = under_lock True es"
| "under_lock held (Release # es) = under_lock False es"
| "under_lock held (e # es) = (if held then e # under_lock held es else under_lock held es)"

text \<open>Taking and releasing the mutex.\<close>

fun lock_op :: "event \<Rightarrow> bool" where
  "lock_op Acquire = True"
| "lock_op Release = True"
| "lock_op _ = False"

text \<open>Blocking I/O: a read of the store, a process spawn, a wait for a process's
  exit.\<close>

fun blocking_io :: "event \<Rightarrow> bool" where
  "blocking_io StoreRead = True"
| "blocking_io (Popen i) = True"
| "blocking_io (WaitFor i t) = True"
| "blocking_io (Communicate i) = True"
| "blocking_io _ = False"

section \<open>The control loop: \<^verbatim>\<open>start_monitoring\<close>\<close>

text \<open>
  One iteration of the loop at lines 164-176 as the environment shapes it: the
  modification time of the data file if it exists, the world of the pass, the
  monitoring threads (slot and process) that finish while the loop sleeps, and whether
  the operator's interrupt arrives during that sleep. The script of iterations is
  finite; a script that ends without an interrupt leaves the loop running.
\<close>

record tick =
  file_mtime :: "rat option"
  tick_world :: world
  reaped :: "(nat \<times> nat) list"
  interrupted :: bool

fun reap :: "world \<Rightarrow> (nat \<times> nat) list \<Rightarrow> monitor \<Rightarrow> monitor" where
  "reap w [] st = st"
| "reap w ((index, process) # rest) st = reap w rest (fst (monitor_bot_process w index process st))"

text \<open>Lines 166-172: the check of the modification time and the pass it triggers.\<close>

definition poll_store :: "rat \<Rightarrow> tick \<Rightarrow> monitor \<Rightarrow> monitor \<times> event list \<times> rat" where
  "poll_store last_mod_time t st =
     (case file_mtime t of
        None \<Rightarrow> (st, [], last_mod_time)
      | Some current_mod_time \<Rightarrow>
          if current_mod_time > last_mod_time then
            (let (st1, ev) = start_new_bots (tick_world t) st
             in (st1,
                 [Print [Lit ''Detected changes in '', Lit (data_file st),
                         Lit '', checking for new bots...''],
                  Sleep (1 / 2)] @ ev,
                 current_mod_time))
          else (st, [], last_mod_time))"

text \<open>The \<^verbatim>\<open>while\<close> loop with its \<^verbatim>\<open>except KeyboardInterrupt\<close> and \<^verbatim>\<open>finally\<close>
  (lines 163-181). \<open>None\<close>: the script is exhausted and the loop has not returned.\<close>

fun monitor_loop :: "rat \<Rightarrow> tick list \<Rightarrow> monitor \<Rightarrow> (monitor \<times> event list) option" where
  "monitor_loop last_mod_time [] st = None"
| "monitor_loop last_mod_time (t # ts) st =
     (if \<not> monitoring st then Some (shutdown_all_bots (tick_world t) st)
      else
        (let (st1, ev1, last1) = poll_store last_mod_time t st;
             (st2, ev2) = cleanup_finished_bots (tick_world t) st1;
             st3 = reap (tick_world t) (reaped t) st2
         in if interrupted t then
              (let (st4, ev4) = shutdown_all_bots (tick_world t) st3
               in Some (st4,
                        ev1 @ ev2 @ [Sleep 1,
                          Print [Lit (CHR 0x0A # ''Received interrupt signal, shutting down...'')]] @ ev4))
            else
              (case monitor_loop last1 ts st3 of
                 None \<Rightarrow> None
               | Some (st4, ev4) \<Rightarrow> Some (st4, ev1 @ ev2 @ [Sleep 1] @ ev4))))"

text \<open>What the environment gives a whole run: the store as \<^verbatim>\<open>BotMonitor()\<close> reads it,
  the world of the pass before the loop, the modification time read at lines 158-159,
  and the script of the loop.\<close>

record session =
  init_store :: store
  first_pass :: world
  first_mtime :: "rat option"
  ticks :: "tick list"

text \<open>\<^verbatim>\<open>start_monitoring\<close> (lines 150-181).\<close>

definition start_monitoring :: "session \<Rightarrow> monitor \<Rightarrow> (monitor \<times> event list) option" where
  "start_monitoring sess st =
     (let (st1, ev1) = start_new_bots (first_pass sess) st;
          last_mod_time = (case first_mtime sess of None \<Rightarrow> 0 | Some m \<Rightarrow> m);
          pre = [Print [Lit ''Starting continuous monitoring of '', Lit (data_file st), Lit ''...''],
                 Print [Lit ''Press Ctrl+C to stop monitoring and shut down all bots''],
                 Print [Lit ''DEBUG: Data loaded: '', Idx (length (data st)), Lit '' bots found'']]
                @ ev1
      in case monitor_loop last_mod_time (ticks sess) (st1\<lparr>monitoring := True\<rparr>) of
           None \<Rightarrow> None
         | Some (st2, ev2) \<Rightarrow> Some (st2, pre @ ev2))"

section \<open>The operator's commands: \<^verbatim>\<open>list_bots\<close> and \<^verbatim>\<open>main\<close>\<close>

text \<open>\<^verbatim>\<open>BotMonitor.__init__\<close> (lines 10-15).\<close>

definition init_monitor :: "string \<Rightarrow> store \<Rightarrow> monitor \<times> event list" where
  "init_monitor file s =
     (let (d, ev) = load_data file s
      in (\<lparr>data_file = file, data = d, running_bots = [], monitoring = False\<rparr>, ev))"

text \<open>The loop of \<^verbatim>\<open>list_bots\<close> (lines 211-215) from slot \<open>i\<close> on: the exception
  \<^verbatim>\<open>config.get\<close> raises on a slot that is not a dict, if any, and the lines printed
  before it.\<close>

fun list_lines :: "(nat \<times> nat) list \<Rightarrow> nat \<Rightarrow> json list \<Rightarrow> exn option \<times> event list" where
  "list_lines rb i [] = (None, [])"
| "list_lines rb i (config # rest) =
     (case get_or config ''model'' (JStr ''Unknown'') of
        Inl e \<Rightarrow> (Some e, [])
      | Inr model \<Rightarrow>
          (case get_or config ''msg_chance'' (JInt 5) of
             Inl e \<Rightarrow> (Some e, [])
           | Inr chance \<Rightarrow>
               (let status = (if live rb i then ''Running'' else ''Stopped'');
                    (r, ev) = list_lines rb (Suc i) rest
                in (r,
                    Print [Lit ''  '', Idx i, Lit '': Model='', Val model,
                           Lit '', Response Chance='', Val chance,
                           Lit ''%, Status='', Lit status] # ev))))"

text \<open>\<^verbatim>\<open>list_bots\<close> (lines 205-215).\<close>

definition list_bots :: "monitor \<Rightarrow> exn option \<times> event list" where
  "list_bots st =
     (if data st = [] then (None, [Print [Lit ''No bot configurations found.'']])
      else
        (let (r, ev) = list_lines (running_bots st) 0 (data st)
         in (r, Print [Lit ''Found '', Idx (length (data st)), Lit '' bot configurations:''] # ev)))"

definition usage :: "event list" where
  "usage =
     [Print [Lit ''Usage:''],
      Print [Lit ''  python bot_monitor.py       - Start continuous monitoring''],
      Print [Lit ''  python bot_monitor.py list  - List all bot configurations with status''],
      Print [Lit ''  python bot_monitor.py help  - Show this help message'']]"

text \<open>
  \<^verbatim>\<open>main\<close> (lines 217-240) on \<^verbatim>\<open>sys.argv\<close>: the exit status of the interpreter and what
  was printed, or \<open>None\<close> while the loop of \<^verbatim>\<open>start_monitoring\<close> has not returned. The
  status is 0 when \<^verbatim>\<open>main\<close> returns and 1 when an exception leaves it; the source
  calls \<^verbatim>\<open>sys.exit\<close> nowhere.
\<close>

definition main :: "string list \<Rightarrow> session \<Rightarrow> (nat \<times> event list) option" where
  "main argv sess =
     (let (monitor, ev0) = init_monitor ''data.json'' (init_store sess);
          pre = [Print [Lit ''DEBUG: bot_monitor.py starting...'']] @ ev0
                @ [Print [Lit ''DEBUG: BotMonitor initialized, args: '', Args argv]]
      in if length argv = 1 then
           (case start_monitoring sess monitor of
              None \<Rightarrow> None
            | Some (st, ev) \<Rightarrow>
                Some (0, pre @ [Print [Lit ''DEBUG: No arguments, starting monitoring...'']] @ ev))
         else if length argv = 2 then
           (let arg = argv ! 1
            in if arg = ''list'' then
                 (case list_bots monitor of
                    (None, ev) \<Rightarrow> Some (0, pre @ ev)
                  | (Some e, ev) \<Rightarrow> Some (1, pre @ ev))
               else if arg = ''help'' then Some (0, pre @ usage)
               else
                 Some (0, pre @
                   [Print [Lit ''Error: '', Lit [CHR 0x27], Lit arg, Lit [CHR 0x27],
                           Lit '' is not a valid command''],
                    Print [Lit ''Use '', Lit [CHR 0x27], Lit ''python bot_monitor.py help'',
                           Lit [CHR 0x27], Lit '' for usage information'']]))
         else
           Some (0, pre @
             [Print [Lit ''Error: Too many arguments''],
              Print [Lit ''Use '', Lit [CHR 0x27], Lit ''python bot_monitor.py help'',
                     Lit [CHR 0x27], Lit '' for usage information'']]))"

section \<open>The model's reply: \<^verbatim>\<open>ChatManager.get_ai_response\<close> (ai.py)\<close>

text \<open>A Python \<^verbatim>\<open>str\<close> is a sequence of code points.\<close>

type_synonym pystr = "nat list"

definition lit :: "string \<Rightarrow> pystr" where
  "lit s = map of_char s"

text \<open>The characters \<^verbatim>\<open>str.strip()\<close> removes (those with \<^verbatim>\<open>isspace()\<close>) and the line
  boundaries of \<^verbatim>\<open>str.splitlines()\<close>.\<close>

definition is_space :: "nat \<Rightarrow> bool" where
  "is_space c = ((9 \<le> c \<and> c \<le> 13) \<or> (28 \<le> c \<and> c \<le> 32) \<or> c = 133 \<or> c = 160
     \<or> c = 5760 \<or> (8192 \<le> c \<and> c \<le> 8202) \<or> c = 8232 \<or> c = 8233 \<or> c = 8239
     \<or> c = 8287 \<or> c = 12288)"

definition is_linebreak :: "nat \<Rightarrow> bool" where
  "is_linebreak c = ((10 \<le> c \<and> c \<le> 13) \<or> (28 \<le> c \<and> c \<le> 30) \<or> c = 133
     \<or> c = 8232 \<or> c = 8233)"

definition strip :: "pystr \<Rightarrow> pystr" where
  "strip s = rev (dropWhile is_space (rev (dropWhile is_space s)))"

text \<open>\<^verbatim>\<open>s.splitlines()\<close>: \<open>cur\<close> holds the current line, reversed. A carriage return
  followed by a line feed is one boundary; a boundary at the very end opens no new
  line.\<close>

fun splitlines_from :: "pystr \<Rightarrow> pystr \<Rightarrow> pystr list" where
  "splitlines_from cur [] = (if cur = [] then [] else [rev cur])"
| "splitlines_from cur [c] =
     (if is_linebreak c then [rev cur] else [rev (c # cur)])"
| "splitlines_from cur (c # d # cs) =
     (if c = 13 \<and> d = 10 then rev cur # splitlines_from [] cs
      else if is_linebreak c then rev cur # splitlines_from [] (d # cs)
      else splitlines_from (c # cur) (d # cs))"

definition splitlines :: "pystr \<Rightarrow> pystr list" where
  "splitlines s = splitlines_from [] s"

text \<open>The first occurrence of a non-empty separator: the text before it and the text
  after it.\<close>

fun split_at :: "'a list \<Rightarrow> 'a list \<Rightarrow> ('a list \<times> 'a list) option" where
  "split_at sep [] = None"
| "split_at sep (c # cs) =
     (if startswith (c # cs) sep then Some ([], drop (length sep) (c # cs))
      else (case split_at sep cs of
              None \<Rightarrow> None
            | Some (before, after) \<Rightarrow> Some (c # before, after)))"

text \<open>\<^verbatim>\<open>s.split(sep)[0]\<close> and \<^verbatim>\<open>s.split(sep, 1)[1]\<close>; the second raises
  \<^verbatim>\<open>IndexError\<close> when the separator does not occur.\<close>

definition split_first :: "pystr \<Rightarrow> pystr \<Rightarrow> pystr" where
  "split_first sep s = (case split_at sep s of None \<Rightarrow> s | Some (before, after) \<Rightarrow> before)"

definition split_second :: "pystr \<Rightarrow> pystr \<Rightarrow> exn + pystr" where
  "split_second sep s =
     (case split_at sep s of None \<Rightarrow> Inl IndexError | Some (before, after) \<Rightarrow> Inr after)"

text \<open>\<^verbatim>\<open>sep.join(xs)\<close>.\<close>

fun join :: "'a list \<Rightarrow> 'a list list \<Rightarrow> 'a list" where
  "join sep [] = []"
| "join sep [x] = x"
| "join sep (x # y # ys) = x @ sep @ join sep (y # ys)"

text \<open>
  \<^verbatim>\<open>gen_image\<close> (lines 172-188). \<open>fetch\<close> stands for the request: given the query
  that is sent (stripped, with \<^verbatim>\<open>no-logo\<close> appended; the URL is built from it alone),
  the exception raised by \<^verbatim>\<open>requests.get\<close> or \<^verbatim>\<open>raise_for_status\<close>, or the bytes of
  the body.
\<close>

definition gen_image :: "(pystr \<Rightarrow> exn + nat list) \<Rightarrow> pystr \<Rightarrow> exn + nat list" where
  "gen_image fetch query =
     (if query = [] then Inl (ValueError ''Query must be a non-empty string'')
      else fetch (strip query @ lit ''no-logo''))"

text \<open>The loop at lines 136-145 over the lines still to read, with the two lists
  built so far: the exception that leaves it, or the kept lines, the image and the
  profile-picture requests. A line that reads \<^verbatim>\<open>Gen:\<close> ends the loop
  (\<^verbatim>\<open>break\<close>).\<close>

fun scan_lines ::
  "(pystr \<Rightarrow> exn + nat list) \<Rightarrow> pystr list \<Rightarrow> pystr list \<Rightarrow> pystr list
     \<Rightarrow> exn + pystr list \<times> nat list option \<times> pystr list" where
  "scan_lines fetch [] filtered_lines pfp_requests = Inr (filtered_lines, None, pfp_requests)"
| "scan_lines fetch (line # rest) filtered_lines pfp_requests =
     (if startswith (strip line) (lit ''Gen:'') then
        (case split_second (lit ''Gen:'') line of
           Inl e \<Rightarrow> Inl e
         | Inr after \<Rightarrow>
             (case gen_image fetch (strip after) of
                Inl e \<Rightarrow> Inl e
              | Inr image_data \<Rightarrow> Inr (filtered_lines, Some image_data, pfp_requests)))
      else if startswith (strip line) (lit ''see_pfp:'') then
        (case split_second (lit ''see_pfp:'') line of
           Inl e \<Rightarrow> Inl e
         | Inr after \<Rightarrow> scan_lines fetch rest filtered_lines (pfp_requests @ [strip after]))
      else scan_lines fetch rest (filtered_lines @ [line]) pfp_requests)"

record reply =
  content :: pystr
  image :: "nat list option"
  pfp_requests :: "pystr list"

text \<open>
  \<^verbatim>\<open>get_ai_response\<close> (lines 83-149). \<open>completion\<close> is the outcome of lines 87-126
  (reading the history, the request to the model, saving the history): the exception
  that leaves them, or the \<^verbatim>\<open>content\<close> of the model's message, which the client
  library gives as a \<^verbatim>\<open>str\<close> or as \<^verbatim>\<open>None\<close>; on \<^verbatim>\<open>None\<close> the test
  \<^verbatim>\<open>"---" in response\<close> raises \<^verbatim>\<open>TypeError\<close>.
\<close>

definition get_ai_response ::
  "(pystr \<Rightarrow> exn + nat list) \<Rightarrow> exn + pystr option \<Rightarrow> exn + reply" where
  "get_ai_response fetch completion =
     (case completion of
        Inl e \<Rightarrow> Inl e
      | Inr None \<Rightarrow> Inl TypeError
      | Inr (Some response) \<Rightarrow>
          (let response1 =
                 (if has_sub (lit ''---'') response then split_first (lit ''---'') response
                  else response);
               lines = splitlines response1
           in case scan_lines fetch lines [] [] of
                Inl e \<Rightarrow> Inl e
              | Inr (filtered_lines, image_data, requests) \<Rightarrow>
                  (let response2 = join [10] filtered_lines
                   in Inr \<lparr>content = (if response2 = [] then lit ''OK'' else response2),
                           image = image_data, pfp_requests = requests\<rparr>)))"

section \<open>Sample configurations and environments\<close>

text \<open>A valid worker record with the given model name and response chance.\<close>

definition cfg :: "string \<Rightarrow> int \<Rightarrow> json" where
  "cfg name chance =
     JDict [(''bot_token'', JStr ''t''), (''model'', JStr name),
            (''personality'', JStr ''p''), (''msg_chance'', JInt chance)]"

text \<open>A world in which the data file holds the given list, every spawn succeeds (slot
  \<open>i\<close> gets process \<open>100 + i\<close>), and every process obeys \<^verbatim>\<open>terminate\<close> at once.\<close>

definition calm_world :: "json list \<Rightarrow> world" where
  "calm_world xs =
     \<lparr>store0 = Content (JList xs), reread = (\<lambda>i. Content (JList xs)),
      popen = (\<lambda>i. Inr (100 + i)), terminate_exn = (\<lambda>p. None), wait_exn = (\<lambda>p. None),
      kill_exn = (\<lambda>p. None), exited = (\<lambda>p. False), communicate = (\<lambda>p. Inr (0, []))\<rparr>"


text \<open>A supervisor that has applied the list \<open>d\<close> and holds the registry \<open>rb\<close>.\<close>

definition supervisor :: "json list \<Rightarrow> (nat \<times> nat) list \<Rightarrow> monitor" where
  "supervisor d rb = \<lparr>data_file = ''data.json'', data = d, running_bots = rb, monitoring = True\<rparr>"

text \<open>A run of the command line against a data file holding the given list: no tick
  of the loop is scripted.\<close>

definition cli_session :: "json list \<Rightarrow> session" where
  "cli_session xs =
     \<lparr>init_store = Content (JList xs), first_pass = calm_world xs, first_mtime = Some 1,
      ticks = []\<rparr>"

section \<open>Properties of the config store\<close>

lemma load_data_missing:
  "load_data f Missing = ([], [StoreRead, Print [Lit ''Error: '', Lit f, Lit '' not found'']])"
  by (simp add: load_data_def)

lemma load_data_unreadable:
  "fst (load_data f (Unreadable e)) = [] \<and> list_ex is_print (snd (load_data f (Unreadable e)))"
  by (cases e) (simp_all add: load_data_def)

lemma load_data_content_list:
  "load_data f (Content (JList xs)) = (xs, [StoreRead])"
  by (simp add: load_data_def)

lemma load_data_content_other:
  "(\<forall>xs. j \<noteq> JList xs) \<Longrightarrow>
     fst (load_data f (Content j)) = [] \<and> list_ex is_print (snd (load_data f (Content j)))"
  by (cases j) (simp_all add: load_data_def)

text \<open>
  Claim C9, as the code has it. When the data file is absent, cannot be opened or
  decoded, or decodes to a value that is not a list, \<open>load_data\<close> returns the empty
  list and prints an error line; it returns a value on every store (the function is
  total: both handlers end in \<^verbatim>\<open>return []\<close>). The elements of a list are not
  inspected at load.
\<close>

theorem load_data_failure_is_empty:
  assumes "s = Missing \<or> (\<exists>e. s = Unreadable e) \<or> (\<exists>j. s = Content j \<and> (\<forall>xs. j \<noteq> JList xs))"
  shows "fst (load_data f s) = [] \<and> list_ex is_print (snd (load_data f s))"
  using assms load_data_unreadable load_data_content_other
  by (auto simp: load_data_missing)

theorem load_data_failure_is_empty_witness:
  "fst (load_data ''data.json'' Missing) = []
   \<and> fst (load_data ''data.json'' (Unreadable (JSONDecodeError ''Expecting value''))) = []
   \<and> fst (load_data ''data.json'' (Content (JDict []))) = []
   \<and> list_ex is_print (snd (load_data ''data.json'' (Content (JDict []))))"
  using load_data_failure_is_empty [of Missing "''data.json''"]
    load_data_failure_is_empty [of "Unreadable (JSONDecodeError ''Expecting value'')" "''data.json''"]
    load_data_failure_is_empty [of "Content (JDict [])" "''data.json''"]
  by simp

text \<open>
  The claim as worded fails on a file whose content is a list that is not a list of
  records: \<^verbatim>\<open>[1]\<close> is returned as it is, and nothing is printed.
\<close>

theorem load_data_list_of_non_records:
  "\<not> list_all is_record [JInt 1]
   \<and> load_data ''data.json'' (Content (JList [JInt 1])) = ([JInt 1], [StoreRead])"
  by (simp add: load_data_def)

section \<open>Properties of reconciliation\<close>

lemma actions_simps [simp]:
  "actions [] = []"
  "actions (e # es) = action_of e @ actions es"
  "actions (xs @ ys) = actions xs @ actions ys"
  by (simp_all add: actions_def)

lemma actions_load_data [simp]: "actions (snd (load_data f s)) = []"
  by (auto simp: load_data_def split: sum.splits json.splits exn.splits)

lemma actions_validate [simp]: "actions (snd (validate_bot_config c i)) = []"
  by (auto simp: validate_bot_config_def split: sum.splits option.splits bool.splits)

lemma actions_start_failed [simp]: "actions (start_failed i e) = []"
  by (cases e) simp_all

lemma actions_start_bot_process [simp]:
  "actions (snd (start_bot_process f w i)) = [Start i]"
proof -
  obtain cd ev where l: "load_data f (reread w i) = (cd, ev)" by (cases "load_data f (reread w i)")
  then have a: "actions ev = []" using actions_load_data [of f "reread w i"] by simp
  obtain r ev2 where v: "validate_bot_config (cd ! i) i = (r, ev2)"
    by (cases "validate_bot_config (cd ! i) i")
  then have b: "actions ev2 = []" using actions_validate [of "cd ! i" i] by simp
  show ?thesis
    by (simp add: start_bot_process_def l v a b Let_def split: sum.splits bool.splits)
qed

lemma live_update [simp]: "live (AList.update i p rb) j = (j = i \<or> live rb j)"
  by (auto simp: live_def update_conv')

lemma live_delete [simp]: "live (AList.delete i rb) j = (j \<noteq> i \<and> live rb j)"
  by (auto simp: live_def delete_conv')

lemma slot_step_actions:
  "actions (snd (slot_step f w old new i rb)) = (if live rb i then [] else [Start i])"
proof -
  obtain p ev2 where s: "start_bot_process f w i = (p, ev2)" by (cases "start_bot_process f w i")
  then have a: "actions ev2 = [Start i]" using actions_start_bot_process [of f w i] by simp
  show ?thesis
    by (simp add: slot_step_def s a Let_def split: option.splits)
qed

lemma slot_step_map_of_other:
  "j \<noteq> i \<Longrightarrow> map_of (fst (slot_step f w old new i rb)) j = map_of rb j"
  by (auto simp: slot_step_def Let_def update_conv' delete_conv' split: option.splits prod.splits)

lemma slot_step_live_other:
  "j \<noteq> i \<Longrightarrow> live (fst (slot_step f w old new i rb)) j = live rb j"
  by (simp add: live_def slot_step_map_of_other)

lemma start_loop_map_of_other:
  "j \<notin> set is \<Longrightarrow> map_of (fst (start_loop f w old new is rb)) j = map_of rb j"
proof (induction "is" arbitrary: rb)
  case Nil
  then show ?case by simp
next
  case (Cons i "is")
  then show ?case
    by (simp add: split_beta slot_step_map_of_other Let_def)
qed

lemma start_loop_actions:
  "distinct is \<Longrightarrow>
     actions (snd (start_loop f w old new is rb)) = map Start (filter (\<lambda>i. \<not> live rb i) is)"
proof (induction "is" arbitrary: rb)
  case Nil
  then show ?case by simp
next
  case (Cons i "is")
  have "filter (\<lambda>j. \<not> live (fst (slot_step f w old new i rb)) j) is
        = filter (\<lambda>j. \<not> live rb j) is"
  proof (intro filter_cong refl)
    fix j assume "j \<in> set is"
    with Cons.prems have "j \<noteq> i" by auto
    then show "(\<not> live (fst (slot_step f w old new i rb)) j) = (\<not> live rb j)"
      by (simp add: slot_step_live_other)
  qed
  with Cons show ?case
    by (simp add: split_beta slot_step_actions Let_def)
qed


lemma start_loop_all_live:
  "\<forall>i\<in>set is. live rb i \<Longrightarrow> start_loop f w old new is rb = (rb, [])"
  by (induction "is") (simp_all add: slot_step_def)

lemma count_started:
  "count_list (map Start (filter P [0..<n])) (Start i) = (if i < n \<and> P i then 1 else 0)"
  by (induction n) auto

lemma start_new_bots_actions:
  "actions (snd (start_new_bots w st)) =
     (let new_data = fst (load_data (data_file st) (store0 w)) in
      if new_data \<noteq> [] \<and> length (running_bots st) < length new_data then
        map Start (filter (\<lambda>i. \<not> live (running_bots st) i) [0..<length new_data])
      else [])"
proof -
  obtain nd ev0 where l: "load_data (data_file st) (store0 w) = (nd, ev0)"
    by (cases "load_data (data_file st) (store0 w)")
  then have a: "actions ev0 = []" using actions_load_data [of "data_file st" "store0 w"] by simp
  show ?thesis
    by (simp add: start_new_bots_def l a Let_def split_beta start_loop_actions)
qed

lemma start_new_bots_registry_other:
  assumes "length (fst (load_data (data_file st) (store0 w))) \<le> i"
  shows "map_of (running_bots (fst (start_new_bots w st))) i = map_of (running_bots st) i"
proof -
  obtain nd ev0 where l: "load_data (data_file st) (store0 w) = (nd, ev0)"
    by (cases "load_data (data_file st) (store0 w)")
  with assms have "i \<notin> set [0..<length nd]" by simp
  then have "map_of (fst (start_loop (data_file st) w (data st) nd [0..<length nd] (running_bots st))) i
             = map_of (running_bots st) i"
    by (rule start_loop_map_of_other)
  then show ?thesis
    by (simp add: start_new_bots_def l Let_def split_beta)
qed

text \<open>
  Claim C1, as the code has it. A slot \<open>i\<close> of the previous list that the newly read
  list no longer has receives no Stop (and no Start) from \<open>start_new_bots\<close>, and its
  entry in the registry, if any, stays as it is. When the newly read list is empty the
  pass returns at line 107: the supervisor's state is unchanged and no action is issued
  at all.
\<close>

theorem shrink_issues_no_stop:
  assumes "fst (load_data (data_file st) (store0 w)) = new_data"
    and "i < length (data st)" and "length new_data \<le> i"
  shows "Stop i \<notin> set (actions (snd (start_new_bots w st)))
         \<and> Start i \<notin> set (actions (snd (start_new_bots w st)))
         \<and> map_of (running_bots (fst (start_new_bots w st))) i = map_of (running_bots st) i
         \<and> (new_data = [] \<longrightarrow>
              fst (start_new_bots w st) = st \<and> actions (snd (start_new_bots w st)) = [])"
proof -
  have "new_data = [] \<longrightarrow> fst (start_new_bots w st) = st"
    using assms(1) by (auto simp: start_new_bots_def split_beta)
  moreover have "map_of (running_bots (fst (start_new_bots w st))) i = map_of (running_bots st) i"
    using assms(1,3) by (simp add: start_new_bots_registry_other)
  ultimately show ?thesis
    using assms(1,3) by (auto simp: start_new_bots_actions Let_def)
qed

text \<open>The theorem at the list \<^verbatim>\<open>[A, B]\<close> shrunk to \<^verbatim>\<open>[A]\<close>, both workers live.\<close>

theorem shrink_issues_no_stop_witness:
  "Stop 1 \<notin> set (actions (snd (start_new_bots (calm_world [cfg ''A'' 5])
       (supervisor [cfg ''A'' 5, cfg ''B'' 10] [(0, 100), (1, 101)]))))
   \<and> map_of (running_bots (fst (start_new_bots (calm_world [cfg ''A'' 5])
       (supervisor [cfg ''A'' 5, cfg ''B'' 10] [(0, 100), (1, 101)])))) 1 = Some 101"
  using shrink_issues_no_stop [of "supervisor [cfg ''A'' 5, cfg ''B'' 10] [(0, 100), (1, 101)]"
      "calm_world [cfg ''A'' 5]" "[cfg ''A'' 5]" 1]
  by (simp add: supervisor_def calm_world_def load_data_def)

text \<open>
  Claim C1 as worded fails. With \<^verbatim>\<open>[A, B]\<close> applied and both workers live, a store
  that now holds \<^verbatim>\<open>[A]\<close> gives no action (slot 1 is not stopped and stays
  registered), and a store that holds the empty list gives no action either.
\<close>

theorem shrink_leaves_orphan_running:
  "actions (snd (start_new_bots (calm_world [cfg ''A'' 5])
      (supervisor [cfg ''A'' 5, cfg ''B'' 10] [(0, 100), (1, 101)]))) = []
   \<and> running_bots (fst (start_new_bots (calm_world [cfg ''A'' 5])
      (supervisor [cfg ''A'' 5, cfg ''B'' 10] [(0, 100), (1, 101)]))) = [(0, 100), (1, 101)]
   \<and> actions (snd (start_new_bots (calm_world [])
      (supervisor [cfg ''A'' 5, cfg ''B'' 10] [(0, 100), (1, 101)]))) = []"
  by (simp add: start_new_bots_actions)
     (simp add: start_new_bots_def supervisor_def calm_world_def load_data_def)

text \<open>
  Claim C2 at the specification's own scenario: \<^verbatim>\<open>[A(chance=5), B(chance=10)]\<close> is
  applied with both workers live and the store changes to
  \<^verbatim>\<open>[A(chance=20), B(chance=10)]\<close>. The pass issues no action: the comparison of line
  119 is only reached for a slot that is not live (line 116), and with two live
  workers the test of line 114 is already false.
\<close>

theorem changed_config_is_not_restarted:
  "\<not> py_eq (cfg ''A'' 5) (cfg ''A'' 20)
   \<and> actions (snd (start_new_bots (calm_world [cfg ''A'' 20, cfg ''B'' 10])
      (supervisor [cfg ''A'' 5, cfg ''B'' 10] [(0, 100), (1, 101)]))) = []"
  by (simp add: start_new_bots_actions)
     (simp add: cfg_def supervisor_def calm_world_def load_data_def)

text \<open>In every pass a live slot receives neither a Stop nor a Start, whatever its
  configuration has become.\<close>

lemma live_slot_untouched:
  "live (running_bots st) i \<Longrightarrow>
     Start i \<notin> set (actions (snd (start_new_bots w st)))
     \<and> Stop i \<notin> set (actions (snd (start_new_bots w st)))"
  by (auto simp: start_new_bots_actions Let_def)

text \<open>
  Claim C3, as the code has it. A declared slot without a live handle is started
  exactly once by the pass when the newly read list is longer than the registry
  (line 114); when it is not, the pass issues no action.
\<close>

theorem missing_slot_started_when_count_grows:
  assumes "fst (load_data (data_file st) (store0 w)) = new_data"
    and "i < length new_data" and "\<not> live (running_bots st) i"
  shows "(length (running_bots st) < length new_data \<longrightarrow>
            count_list (actions (snd (start_new_bots w st))) (Start i) = 1)
         \<and> (length new_data \<le> length (running_bots st) \<longrightarrow>
            actions (snd (start_new_bots w st)) = [])"
  using assms by (auto simp: start_new_bots_actions Let_def count_started)

text \<open>The theorem at \<^verbatim>\<open>[A, B]\<close> with only the worker of slot 1 live.\<close>

theorem missing_slot_started_when_count_grows_witness:
  "count_list (actions (snd (start_new_bots (calm_world [cfg ''A'' 5, cfg ''B'' 10])
      (supervisor [cfg ''A'' 5, cfg ''B'' 10] [(1, 101)])))) (Start 0) = 1"
  using missing_slot_started_when_count_grows
    [of "supervisor [cfg ''A'' 5, cfg ''B'' 10] [(1, 101)]"
        "calm_world [cfg ''A'' 5, cfg ''B'' 10]" "[cfg ''A'' 5, cfg ''B'' 10]" 0]
  by (simp add: supervisor_def calm_world_def load_data_def live_def)

text \<open>
  Claim C3 as worded fails. After \<^verbatim>\<open>[A, B]\<close> has shrunk to \<^verbatim>\<open>[A]\<close> (slot 1 keeps
  running, by the above) and the worker of slot 0 has exited, the registry holds one
  entry and the list one slot: slot 0 is declared and not live, and the pass starts
  nothing.
\<close>

theorem dead_slot_not_restarted_after_shrink:
  "\<not> live [(1, 101)] 0
   \<and> actions (snd (start_new_bots (calm_world [cfg ''A'' 5])
      (supervisor [cfg ''A'' 5] [(1, 101)]))) = []"
  by (simp add: start_new_bots_actions)
     (simp add: supervisor_def calm_world_def load_data_def live_def)

text \<open>The test of line 114 holds whenever every registered slot is a declared one
  and some declared slot is not live.\<close>

lemma count_guard_holds:
  assumes "distinct (map fst rb)" and "\<forall>k\<in>set (map fst rb). k < n"
    and "i < n" and "\<not> live rb i"
  shows "length rb < n"
proof -
  have "i \<notin> set (map fst rb)"
    using assms(4) by (auto simp: live_def map_of_eq_None_iff)
  then have "set (map fst rb) \<subseteq> {..<n} - {i}" using assms(2) by auto
  then have "card (set (map fst rb)) \<le> card ({..<n} - {i})"
    by (intro card_mono) auto
  also have "\<dots> < n" using assms(3) by simp
  finally have "card (set (map fst rb)) < n" .
  moreover have "card (set (map fst rb)) = length (map fst rb)"
    using assms(1) by (rule distinct_card)
  ultimately show ?thesis by simp
qed

text \<open>
  Claim C8. When the store read gives the list the supervisor applied last and every
  declared slot is live, the pass issues no action and leaves the supervisor's state
  as it was.
\<close>

theorem reconcile_twice_is_noop:
  assumes "fst (load_data (data_file st) (store0 w)) = data st"
    and "\<forall>i<length (data st). live (running_bots st) i"
  shows "fst (start_new_bots w st) = st \<and> actions (snd (start_new_bots w st)) = []"
proof -
  obtain ev0 where l: "load_data (data_file st) (store0 w) = (data st, ev0)"
    using assms(1) by (cases "load_data (data_file st) (store0 w)") simp
  have "start_loop (data_file st) w (data st) (data st) [0..<length (data st)] (running_bots st)
        = (running_bots st, [])"
    using assms(2) by (intro start_loop_all_live) simp
  then have "fst (start_new_bots w st) = st"
    by (simp add: start_new_bots_def l Let_def)
  moreover have "filter (\<lambda>i. \<not> live (running_bots st) i) [0..<length (data st)] = []"
    using assms(2) by (simp add: filter_empty_conv)
  ultimately show ?thesis
    using assms(1) by (simp add: start_new_bots_actions Let_def)
qed

text \<open>The theorem at \<^verbatim>\<open>[A, B]\<close> with both workers live.\<close>

theorem reconcile_twice_is_noop_witness:
  "fst (start_new_bots (calm_world [cfg ''A'' 5, cfg ''B'' 10])
      (supervisor [cfg ''A'' 5, cfg ''B'' 10] [(0, 100), (1, 101)]))
     = supervisor [cfg ''A'' 5, cfg ''B'' 10] [(0, 100), (1, 101)]
   \<and> actions (snd (start_new_bots (calm_world [cfg ''A'' 5, cfg ''B'' 10])
      (supervisor [cfg ''A'' 5, cfg ''B'' 10] [(0, 100), (1, 101)]))) = []"
  using reconcile_twice_is_noop
    [of "supervisor [cfg ''A'' 5, cfg ''B'' 10] [(0, 100), (1, 101)]"
        "calm_world [cfg ''A'' 5, cfg ''B'' 10]"]
  by (simp add: supervisor_def calm_world_def load_data_def live_def less_Suc_eq)

section \<open>Properties of shutdown\<close>





section \<open>Properties of the mutex\<close>

lemma under_lock_free:
  "\<not> list_ex lock_op xs \<Longrightarrow> under_lock h (xs @ ys) = (if h then xs else []) @ under_lock h ys"
proof (induction xs arbitrary: h)
  case Nil
  then show ?case by simp
next
  case (Cons e xs)
  then show ?case by (cases e) auto
qed

lemma under_lock_free_all:
  "\<not> list_ex lock_op xs \<Longrightarrow> under_lock h xs = (if h then xs else [])"
  using under_lock_free [of xs h "[]"] by simp

lemma lock_free_load_data: "\<not> list_ex lock_op (snd (load_data f s))"
  by (auto simp: load_data_def split: sum.splits json.splits exn.splits)

lemma lock_free_validate: "\<not> list_ex lock_op (snd (validate_bot_config c i))"
  by (auto simp: validate_bot_config_def split: sum.splits option.splits bool.splits)

lemma lock_free_start_failed: "\<not> list_ex lock_op (start_failed i e)"
  by (cases e) simp_all

lemma lock_free_start_bot_process: "\<not> list_ex lock_op (snd (start_bot_process f w i))"
proof -
  obtain cd ev where l: "load_data f (reread w i) = (cd, ev)" by (cases "load_data f (reread w i)")
  then have a: "\<not> list_ex lock_op ev" using lock_free_load_data [of f "reread w i"] by simp
  obtain r ev2 where v: "validate_bot_config (cd ! i) i = (r, ev2)"
    by (cases "validate_bot_config (cd ! i) i")
  then have b: "\<not> list_ex lock_op ev2" using lock_free_validate [of "cd ! i" i] by simp
  show ?thesis
    using a b
    by (simp add: start_bot_process_def l v Let_def lock_free_start_failed
        split: sum.splits bool.splits)
qed

lemma lock_free_slot_step: "\<not> list_ex lock_op (snd (slot_step f w old new i rb))"
proof -
  obtain p ev2 where s: "start_bot_process f w i = (p, ev2)" by (cases "start_bot_process f w i")
  then have a: "\<not> list_ex lock_op ev2" using lock_free_start_bot_process [of f w i] by simp
  show ?thesis
    using a by (simp add: slot_step_def s Let_def split: option.splits)
qed

lemma lock_free_start_loop: "\<not> list_ex lock_op (snd (start_loop f w old new is rb))"
  by (induction "is" arbitrary: rb) (simp_all add: split_beta Let_def lock_free_slot_step)

lemma lock_free_shutdown_one: "\<not> list_ex lock_op (shutdown_one w entry)"
  by (cases entry)
     (auto simp: shutdown_one_def terminate_failed_def split: option.splits exn.splits)

lemma lock_free_shutdown_body: "\<not> list_ex lock_op (concat (map (shutdown_one w) rb))"
  by (induction rb) (simp_all add: lock_free_shutdown_one)

lemma blocking_load_data: "filter blocking_io (snd (load_data f s)) = [StoreRead]"
  by (auto simp: load_data_def split: sum.splits json.splits exn.splits)

lemma start_new_bots_lock_scope:
  "filter blocking_io (snd (start_new_bots w st)) =
     StoreRead # filter blocking_io (under_lock False (snd (start_new_bots w st)))"
proof -
  obtain nd ev0 where l: "load_data (data_file st) (store0 w) = (nd, ev0)"
    by (cases "load_data (data_file st) (store0 w)")
  have a: "\<not> list_ex lock_op ev0" using lock_free_load_data [of "data_file st" "store0 w"] l by simp
  have b: "filter blocking_io ev0 = [StoreRead]"
    using blocking_load_data [of "data_file st" "store0 w"] l by simp
  obtain rb ev where s: "start_loop (data_file st) w (data st) nd [0..<length nd] (running_bots st) = (rb, ev)"
    by (cases "start_loop (data_file st) w (data st) nd [0..<length nd] (running_bots st)")
  have c: "\<not> list_ex lock_op ev"
    using lock_free_start_loop [of "data_file st" w "data st" nd "[0..<length nd]" "running_bots st"] s
    by simp
  have d: "under_lock False (ev0 @ Acquire # ev @ [Release]) = ev"
    using under_lock_free [OF a, of False "Acquire # ev @ [Release]"]
      under_lock_free [OF c, of True "[Release]"] by simp
  have e: "under_lock False (ev0 @ [Acquire, Release]) = []"
    using under_lock_free [OF a, of False "[Acquire, Release]"] by simp
  show ?thesis
    using a b d e
    by (simp add: start_new_bots_def l s Let_def under_lock_free_all)
qed

text \<open>
  Claim C5, as the code has it. The monitoring thread blocks in \<^verbatim>\<open>communicate()\<close>
  before it takes the mutex, and the cleanup pass does no blocking I/O under it. A
  reconciliation pass reads the store once before it takes the mutex; every other
  store read and every spawn of the pass happens while it holds the mutex. Every
  \<^verbatim>\<open>terminate\<close>, \<^verbatim>\<open>wait\<close> and \<^verbatim>\<open>kill\<close> of the shutdown happens while the mutex is held.
\<close>

theorem lock_scope:
  "filter blocking_io (under_lock False (snd (monitor_bot_process w i p st))) = []
   \<and> filter blocking_io (under_lock False (snd (cleanup_finished_bots w st))) = []
   \<and> filter blocking_io (snd (start_new_bots w st)) =
       StoreRead # filter blocking_io (under_lock False (snd (start_new_bots w st)))
   \<and> filter is_process_op (under_lock False (snd (shutdown_all_bots w st))) =
       filter is_process_op (snd (shutdown_all_bots w st))"
proof -
  have 1: "filter blocking_io (under_lock False (snd (monitor_bot_process w i p st))) = []"
    by (simp add: monitor_bot_process_def split: sum.splits)
  define body where "body =
    map (\<lambda>(index, process). Poll index) (running_bots st)
    @ map (\<lambda>index. Print [Lit ''Cleaning up finished bot '', Idx index])
        (map fst (filter (\<lambda>(index, process). exited w process) (running_bots st)))"
  have free: "\<not> list_ex lock_op body"
    by (auto simp: body_def list_ex_iff)
  have quiet: "filter blocking_io body = []"
    by (auto simp: body_def filter_empty_conv)
  have "snd (cleanup_finished_bots w st) = Acquire # body @ [Release]"
    by (simp add: cleanup_finished_bots_def body_def Let_def)
  then have 2: "filter blocking_io (under_lock False (snd (cleanup_finished_bots w st))) = []"
    using under_lock_free [OF free, of True "[Release]"] quiet by simp
  have 4: "filter is_process_op (under_lock False (snd (shutdown_all_bots w st))) =
       filter is_process_op (snd (shutdown_all_bots w st))"
    using under_lock_free [OF lock_free_shutdown_body, of True w "running_bots st"]
    by (simp add: shutdown_all_bots_def)
  show ?thesis using 1 2 4 start_new_bots_lock_scope by simp
qed

text \<open>
  Claim C5 as worded fails: shutting down one live worker waits for its exit with the
  mutex held, and a pass that starts slot 0 reads the store and spawns the process
  with the mutex held.
\<close>

theorem blocking_io_under_lock:
  "filter blocking_io (under_lock False (snd (shutdown_all_bots (calm_world [])
      (supervisor [cfg ''A'' 5] [(0, 100)])))) = [WaitFor 0 5]
   \<and> filter blocking_io (under_lock False (snd (start_new_bots (calm_world [cfg ''A'' 5])
      (supervisor [] [])))) = [StoreRead, Popen 0]"
  by (simp add: shutdown_all_bots_def shutdown_one_def start_new_bots_def slot_step_def
      start_bot_process_def validate_bot_config_def load_data_def supervisor_def calm_world_def
      cfg_def live_def)

section \<open>Properties of the command line\<close>

text \<open>\<^verbatim>\<open>main\<close> builds a new \<^verbatim>\<open>BotMonitor\<close>, whose registry is empty, so every line that
  \<^verbatim>\<open>list\<close> prints for a slot ends in \<^verbatim>\<open>Stopped\<close>.\<close>

lemma init_monitor_registry: "running_bots (fst (init_monitor f s)) = []"
  by (simp add: init_monitor_def split_beta)

lemma list_lines_fresh_registry:
  "Print l \<in> set (snd (list_lines [] i xs)) \<Longrightarrow>
     last l = Lit ''Stopped''"
  by (induction xs arbitrary: i) (auto simp: live_def split_beta split: sum.splits)

text \<open>With one argument that is neither \<^verbatim>\<open>list\<close> nor \<^verbatim>\<open>help\<close>, or with more than
  one argument, \<^verbatim>\<open>main\<close> returns and the exit status is 0.\<close>

lemma main_invalid_arguments:
  assumes "(length argv = 2 \<and> argv ! 1 \<noteq> ''list'' \<and> argv ! 1 \<noteq> ''help'') \<or> 2 < length argv"
  shows "map_option fst (main argv sess) = Some 0"
  using assms by (auto simp: main_def split_beta Let_def)

text \<open>
  Claim C6 at \<^verbatim>\<open>python runner.py bogus\<close>: two lines are printed, an error and a hint to
  run \<^verbatim>\<open>help\<close> (the usage text itself is not printed), and the exit status is 0. One
  argument too many exits with 0 as well.
\<close>

theorem invalid_command_exits_zero:
  "main [''runner.py'', ''bogus''] (cli_session []) =
     Some (0,
       [Print [Lit ''DEBUG: bot_monitor.py starting...''],
        StoreRead,
        Print [Lit ''DEBUG: BotMonitor initialized, args: '', Args [''runner.py'', ''bogus'']],
        Print [Lit ''Error: '', Lit [CHR 0x27], Lit ''bogus'', Lit [CHR 0x27],
               Lit '' is not a valid command''],
        Print [Lit ''Use '', Lit [CHR 0x27], Lit ''python bot_monitor.py help'',
               Lit [CHR 0x27], Lit '' for usage information'']])
   \<and> map_option fst (main [''runner.py'', ''list'', ''now''] (cli_session [])) = Some 0"
  by (simp add: main_def init_monitor_def load_data_def cli_session_def)

text \<open>
  Claim C7 at \<^verbatim>\<open>python runner.py list\<close> with the data file \<^verbatim>\<open>[B(chance=10)]\<close>: the
  line for slot 0 gives the model, the chance and the status \<^verbatim>\<open>Stopped\<close>. Nothing in
  the run depends on whether a supervisor elsewhere has the worker of slot 0 alive.
\<close>

theorem list_reports_stopped:
  "main [''runner.py'', ''list''] (cli_session [cfg ''B'' 10]) =
     Some (0,
       [Print [Lit ''DEBUG: bot_monitor.py starting...''],
        StoreRead,
        Print [Lit ''DEBUG: BotMonitor initialized, args: '', Args [''runner.py'', ''list'']],
        Print [Lit ''Found '', Idx 1, Lit '' bot configurations:''],
        Print [Lit ''  '', Idx 0, Lit '': Model='', Val (JStr ''B''),
               Lit '', Response Chance='', Val (JInt 10),
               Lit ''%, Status='', Lit ''Stopped'']])"
  by (simp add: main_def init_monitor_def load_data_def cli_session_def list_bots_def cfg_def
      live_def)

text \<open>Every slot line the \<^verbatim>\<open>list\<close> command prints ends in \<^verbatim>\<open>Stopped\<close>.\<close>

lemma list_command_status:
  assumes "main [prog, ''list''] sess = Some (status, ev)"
    and "Print (Lit ''  '' # rest) \<in> set ev"
  shows "last rest = Lit ''Stopped''"
proof -
  obtain d ev0 where l: "load_data ''data.json'' (init_store sess) = (d, ev0)"
    by (cases "load_data ''data.json'' (init_store sess)")
  have a: "Print (Lit ''  '' # rest) \<notin> set ev0"
    using l by (auto simp: load_data_def split: if_splits sum.splits json.splits exn.splits)
  obtain r evl where ll: "list_lines [] 0 d = (r, evl)" by (cases "list_lines [] 0 d")
  have "Print (Lit ''  '' # rest) \<in> set evl"
    using assms a
    by (auto simp: main_def init_monitor_def l ll list_bots_def Let_def
        split: if_splits option.splits)
  then have "last (Lit ''  '' # rest) = Lit ''Stopped''"
    using list_lines_fresh_registry [of "Lit ''  '' # rest" 0 d] ll by simp
  then show ?thesis by (cases rest) (auto split: if_splits)
qed

section \<open>Properties of the model's reply\<close>

lemma startswith_append: "startswith (p @ v) p"
  by (induction p) simp_all

lemma startswith_iff: "startswith s p = (\<exists>v. s = p @ v)"
  by (induction s p rule: startswith.induct) auto

lemma split_at_occurs: "p \<noteq> [] \<Longrightarrow> split_at p (u @ p @ v) \<noteq> None"
proof (induction u)
  case Nil
  then obtain c cs where "p @ v = c # cs" by (cases p) auto
  then show ?case using startswith_append [of p v] by simp
next
  case (Cons a u)
  then show ?case by (auto split: option.splits)
qed

lemma strip_inside: "\<exists>u v. s = u @ strip s @ v"
proof -
  let ?t = "dropWhile is_space s"
  have "rev (rev ?t) = rev (takeWhile is_space (rev ?t) @ dropWhile is_space (rev ?t))"
    by (simp only: takeWhile_dropWhile_id)
  then have "?t = rev (dropWhile is_space (rev ?t)) @ rev (takeWhile is_space (rev ?t))"
    by (simp only: rev_append rev_rev_ident)
  then have "?t = strip s @ rev (takeWhile is_space (rev ?t))"
    by (simp only: strip_def)
  moreover have "s = takeWhile is_space s @ ?t" by simp
  ultimately show ?thesis by metis
qed

lemma split_second_found:
  assumes "startswith (strip line) p" and "p \<noteq> []"
  shows "\<exists>after. split_second p line = Inr after"
proof -
  obtain u v where "line = u @ strip line @ v" using strip_inside by blast
  moreover obtain v' where "strip line = p @ v'" using assms(1) by (auto simp: startswith_iff)
  ultimately have "line = u @ p @ (v' @ v)" by simp
  then have "split_at p line \<noteq> None" using split_at_occurs [OF assms(2)] by metis
  then show ?thesis by (auto simp: split_second_def)
qed

lemma lit_nonempty: "lit ''Gen:'' \<noteq> []" "lit ''see_pfp:'' \<noteq> []"
  by (simp_all add: lit_def)

lemma scan_lines_kept:
  "scan_lines fetch ls fl pr = Inr (f, im, rq) \<Longrightarrow>
     f = fl @ filter (\<lambda>l. \<not> startswith (strip l) (lit ''see_pfp:''))
                (takeWhile (\<lambda>l. \<not> startswith (strip l) (lit ''Gen:'')) ls)"
proof (induction ls arbitrary: fl pr)
  case Nil
  then show ?case by simp
next
  case (Cons line ls)
  show ?case
  proof (cases "startswith (strip line) (lit ''Gen:'')")
    case True
    with Cons.prems show ?thesis by (auto split: sum.splits)
  next
    case False
    show ?thesis
    proof (cases "startswith (strip line) (lit ''see_pfp:'')")
      case True
      with False Cons.prems obtain after where
        "scan_lines fetch ls fl (pr @ [strip after]) = Inr (f, im, rq)"
        by (auto split: sum.splits)
      from Cons.IH [OF this] False True show ?thesis by simp
    next
      case nopfp: False
      with False Cons.prems have "scan_lines fetch ls (fl @ [line]) pr = Inr (f, im, rq)"
        by simp
      from Cons.IH [OF this] False nopfp show ?thesis by simp
    qed
  qed
qed

lemma scan_lines_cases:
  "(\<exists>f im rq. scan_lines fetch ls fl pr = Inr (f, im, rq))
   \<or> (\<exists>e line after. scan_lines fetch ls fl pr = Inl e \<and> line \<in> set ls
        \<and> startswith (strip line) (lit ''Gen:'')
        \<and> split_second (lit ''Gen:'') line = Inr after
        \<and> gen_image fetch (strip after) = Inl e)"
proof (induction ls arbitrary: fl pr)
  case Nil
  then show ?case by simp
next
  case (Cons line ls)
  have mono: "(\<exists>f im rq. X = Inr (f, im, rq))
      \<or> (\<exists>e l after. X = Inl e \<and> l \<in> set (line # ls)
           \<and> startswith (strip l) (lit ''Gen:'')
           \<and> split_second (lit ''Gen:'') l = Inr after
           \<and> gen_image fetch (strip after) = Inl e)"
    if "(\<exists>f im rq. X = Inr (f, im, rq))
      \<or> (\<exists>e l after. X = Inl e \<and> l \<in> set ls
           \<and> startswith (strip l) (lit ''Gen:'')
           \<and> split_second (lit ''Gen:'') l = Inr after
           \<and> gen_image fetch (strip after) = Inl e)" for X
    using that by (elim disjE exE conjE) (blast, rule disjI2, simp, blast)
  show ?case
  proof (cases "startswith (strip line) (lit ''Gen:'')")
    case True
    then obtain after where a: "split_second (lit ''Gen:'') line = Inr after"
      using split_second_found lit_nonempty(1) by blast
    show ?thesis
    proof (cases "gen_image fetch (strip after)")
      case (Inl e)
      with True a show ?thesis by auto
    next
      case (Inr img)
      with True a show ?thesis by simp
    qed
  next
    case False
    show ?thesis
    proof (cases "startswith (strip line) (lit ''see_pfp:'')")
      case True
      then obtain after where a: "split_second (lit ''see_pfp:'') line = Inr after"
        using split_second_found lit_nonempty(2) by blast
      have "scan_lines fetch (line # ls) fl pr = scan_lines fetch ls fl (pr @ [strip after])"
        using False True a by simp
      with mono [OF Cons [of fl "pr @ [strip after]"]] show ?thesis by simp
    next
      case nopfp: False
      have "scan_lines fetch (line # ls) fl pr = scan_lines fetch ls (fl @ [line]) pr"
        using False nopfp by simp
      with mono [OF Cons [of "fl @ [line]" pr]] show ?thesis by simp
    qed
  qed
qed

text \<open>
  Claim C10, as the code has it. On every response text \<open>get_ai_response\<close> either
  returns a reply whose content is not empty, or raises what \<open>gen_image\<close> raised
  for a line that reads \<^verbatim>\<open>Gen:\<close>. The content is built from the text before the first
  \<^verbatim>\<open>---\<close>: its lines up to the first one that reads \<^verbatim>\<open>Gen:\<close>, without those that
  read \<^verbatim>\<open>see_pfp:\<close>, joined by line feeds, or \<^verbatim>\<open>OK\<close> when that is empty.
\<close>

theorem reply_content_never_empty:
  "(let cut = (if has_sub (lit ''---'') response then split_first (lit ''---'') response
                else response);
        kept = filter (\<lambda>l. \<not> startswith (strip l) (lit ''see_pfp:''))
                 (takeWhile (\<lambda>l. \<not> startswith (strip l) (lit ''Gen:'')) (splitlines cut))
    in (\<exists>r. get_ai_response fetch (Inr (Some response)) = Inr r
          \<and> content r \<noteq> []
          \<and> content r = (if join [10] kept = [] then lit ''OK'' else join [10] kept))
       \<or> (\<exists>e line after. get_ai_response fetch (Inr (Some response)) = Inl e
            \<and> line \<in> set (splitlines cut)
            \<and> startswith (strip line) (lit ''Gen:'')
            \<and> split_second (lit ''Gen:'') line = Inr after
            \<and> gen_image fetch (strip after) = Inl e))"
proof -
  define cut where "cut = (if has_sub (lit ''---'') response
                             then split_first (lit ''---'') response else response)"
  consider (ok) f im rq where "scan_lines fetch (splitlines cut) [] [] = Inr (f, im, rq)"
    | (raised) e line after where "scan_lines fetch (splitlines cut) [] [] = Inl e"
        "line \<in> set (splitlines cut)" "startswith (strip line) (lit ''Gen:'')"
        "split_second (lit ''Gen:'') line = Inr after" "gen_image fetch (strip after) = Inl e"
    using scan_lines_cases [of fetch "splitlines cut" "[]" "[]"] by blast
  then show ?thesis
  proof cases
    case ok
    have "lit ''OK'' \<noteq> []" by (simp add: lit_def)
    with ok scan_lines_kept [OF ok] show ?thesis
      unfolding Let_def cut_def [symmetric]
      by (auto simp: get_ai_response_def cut_def Let_def)
  next
    case raised
    then show ?thesis
      unfolding Let_def cut_def [symmetric]
      by (auto simp: get_ai_response_def cut_def Let_def)
  qed
qed

text \<open>
  Claim C10 as worded fails. The response \<^verbatim>\<open>Gen:\<close> asks for an image with an empty
  prompt: \<open>gen_image\<close> raises \<^verbatim>\<open>ValueError\<close> and no reply is returned. And
  on the three lines \<^verbatim>\<open>a\<close>, \<^verbatim>\<open>Gen: cat\<close>, \<^verbatim>\<open>b\<close> the content is \<^verbatim>\<open>a\<close>: the line after
  the \<^verbatim>\<open>Gen:\<close> line is dropped with it.
\<close>

theorem gen_without_prompt_raises:
  "get_ai_response (\<lambda>query. Inr []) (Inr (Some (lit ''Gen:'')))
     = Inl (ValueError ''Query must be a non-empty string'')
   \<and> map_sum id content
       (get_ai_response (\<lambda>query. Inr []) (Inr (Some (lit ''a'' @ [10] @ lit ''Gen: cat'' @ [10] @ lit ''b''))))
     = Inr (lit ''a'')"
  by (simp add: get_ai_response_def lit_def splitlines_def is_linebreak_def strip_def
      is_space_def split_second_def gen_image_def)

text \<open>The theorem at a response whose only line reads \<^verbatim>\<open>see_pfp:\<close>.\<close>

theorem reply_content_never_empty_witness:
  "(\<exists>r. get_ai_response (\<lambda>query. Inr []) (Inr (Some (lit ''see_pfp: bob''))) = Inr r
        \<and> content r = lit ''OK'')"
  using reply_content_never_empty [of "lit ''see_pfp: bob''" "\<lambda>query. Inr []"]
  by (auto simp: lit_def splitlines_def is_linebreak_def strip_def is_space_def Let_def)

section \<open>Further properties of the supervisor\<close>

lemma slot_step_distinct:
  "distinct (map fst rb) \<Longrightarrow> distinct (map fst (fst (slot_step f w old new i rb)))"
  by (auto simp: slot_step_def Let_def split_beta distinct_update distinct_delete
      split: option.splits)

lemma start_loop_distinct:
  "distinct (map fst rb) \<Longrightarrow> distinct (map fst (fst (start_loop f w old new is rb)))"
  by (induction "is" arbitrary: rb) (simp_all add: split_beta Let_def slot_step_distinct)

text \<open>A pass never registers a slot twice: the keys of the registry stay distinct.\<close>

theorem registry_keys_stay_distinct:
  assumes "distinct (map fst (running_bots st))"
  shows "distinct (map fst (running_bots (fst (start_new_bots w st))))"
  using assms by (simp add: start_new_bots_def split_beta Let_def start_loop_distinct)

theorem registry_keys_stay_distinct_witness:
  "distinct (map fst (running_bots (fst (start_new_bots (calm_world [cfg ''A'' 5, cfg ''B'' 10])
      (supervisor [cfg ''A'' 5] [(1, 101)])))))"
  using registry_keys_stay_distinct
    [of "supervisor [cfg ''A'' 5] [(1, 101)]" "calm_world [cfg ''A'' 5, cfg ''B'' 10]"]
  by (simp add: supervisor_def)

text \<open>
  A slot whose record lacks one of the required fields \<^verbatim>\<open>bot_token\<close>, \<^verbatim>\<open>model\<close>,
  \<^verbatim>\<open>personality\<close> is not spawned: \<open>start_bot_process\<close> returns \<^verbatim>\<open>None\<close> without
  creating a process.
\<close>

theorem invalid_slot_is_not_spawned:
  assumes "reread w i = Content (JList xs)" and "i < length xs" and "xs ! i = JDict kv"
    and "k \<in> {''bot_token'', ''model'', ''personality''}" and "k \<notin> fst ` set kv"
  shows "fst (start_bot_process f w i) = None \<and> Popen i \<notin> set (snd (start_bot_process f w i))"
proof -
  have c: "contains (JDict kv) k = Inr False"
    using assms(5) by (force simp: list_ex_iff)
  have "\<exists>g. missing_field (JDict kv) [''bot_token'', ''model'', ''personality''] = Inr (Some g)"
    using assms(4) c by (auto split: sum.splits bool.splits)
  then show ?thesis
    using assms(1-3)
    by (auto simp: start_bot_process_def load_data_def validate_bot_config_def Let_def)
qed

theorem invalid_slot_is_not_spawned_witness:
  "fst (start_bot_process ''data.json'' (calm_world [JDict [(''model'', JStr ''m'')]]) 0) = None"
  using invalid_slot_is_not_spawned
    [of "calm_world [JDict [(''model'', JStr ''m'')]]" 0 "[JDict [(''model'', JStr ''m'')]]"
        "[(''model'', JStr ''m'')]" "''bot_token''" "''data.json''"]
  by (simp add: calm_world_def)

lemma shutdown_registry: "running_bots (fst (shutdown_all_bots w st)) = []"
  by (simp add: shutdown_all_bots_def)

lemma monitor_loop_interrupted:
  assumes "list_ex interrupted ts"
  shows "\<exists>st' ev. monitor_loop lm ts st = Some (st', ev) \<and> running_bots st' = []"
  using assms
proof (induction ts arbitrary: lm st)
  case Nil
  then show ?case by simp
next
  case (Cons t ts)
  obtain st1 ev1 lm1 where p: "poll_store lm t st = (st1, ev1, lm1)"
    by (cases "poll_store lm t st")
  obtain st2 ev2 where c: "cleanup_finished_bots (tick_world t) st1 = (st2, ev2)"
    by (cases "cleanup_finished_bots (tick_world t) st1")
  define st3 where "st3 = reap (tick_world t) (reaped t) st2"
  obtain st4 ev4 where s: "shutdown_all_bots (tick_world t) st3 = (st4, ev4)"
    by (cases "shutdown_all_bots (tick_world t) st3")
  have r4: "running_bots st4 = []"
    using shutdown_registry [of "tick_world t" st3] s by simp
  obtain st5 ev5 where s5: "shutdown_all_bots (tick_world t) st = (st5, ev5)"
    by (cases "shutdown_all_bots (tick_world t) st")
  have r5: "running_bots st5 = []"
    using shutdown_registry [of "tick_world t" st] s5 by simp
  show ?case
  proof (cases "monitoring st")
    case False
    then show ?thesis using s5 r5 by simp
  next
    case True
    show ?thesis
    proof (cases "interrupted t")
      case it: True
      then show ?thesis
        using True p c s r4 by (simp add: st3_def)
    next
      case nt: False
      with Cons.prems have "list_ex interrupted ts" by simp
      from Cons.IH [OF this, of lm1 st3] obtain st' ev
        where "monitor_loop lm1 ts st3 = Some (st', ev)" "running_bots st' = []" by blast
      then show ?thesis
        using True nt p c by (simp add: st3_def)
    qed
  qed
qed

text \<open>
  Once the operator's interrupt arrives, \<open>start_monitoring\<close> returns, and it returns
  with an empty registry: the \<^verbatim>\<open>finally\<close> clause has run \<^verbatim>\<open>_shutdown_all_bots\<close>.
\<close>

theorem interrupt_shuts_down:
  assumes "list_ex interrupted (ticks sess)"
  shows "\<exists>st' ev. start_monitoring sess st = Some (st', ev) \<and> running_bots st' = []"
proof -
  obtain st1 ev1 where p: "start_new_bots (first_pass sess) st = (st1, ev1)"
    by (cases "start_new_bots (first_pass sess) st")
  from monitor_loop_interrupted [OF assms] obtain st' ev where
    "monitor_loop (case first_mtime sess of None \<Rightarrow> 0 | Some m \<Rightarrow> m) (ticks sess)
       (st1\<lparr>monitoring := True\<rparr>) = Some (st', ev)" "running_bots st' = []"
    by blast
  then show ?thesis
    by (simp add: start_monitoring_def p Let_def)
qed

theorem interrupt_shuts_down_witness:
  "\<exists>st' ev. start_monitoring
       \<lparr>init_store = Content (JList [cfg ''A'' 5]), first_pass = calm_world [cfg ''A'' 5],
        first_mtime = Some 1,
        ticks = [\<lparr>file_mtime = Some 1, tick_world = calm_world [cfg ''A'' 5], reaped = [],
                  interrupted = True\<rparr>]\<rparr>
       (supervisor [] []) = Some (st', ev) \<and> running_bots st' = []"
  using interrupt_shuts_down
    [of "\<lparr>init_store = Content (JList [cfg ''A'' 5]), first_pass = calm_world [cfg ''A'' 5],
          first_mtime = Some 1,
          ticks = [\<lparr>file_mtime = Some 1, tick_world = calm_world [cfg ''A'' 5], reaped = [],
                    interrupted = True\<rparr>]\<rparr>" "supervisor [] []"]
  by simp


end
